theory Spec2Isabelle
  imports Main "HOL-Library.Word"
begin

unbundle bit_operations_syntax

section \<open>Data model (SerLCD0.h)\<close>

text \<open>
  The driver targets a 32-bit Arduino core: \<open>uint8_t\<close> is an 8-bit word and
  \<open>unsigned long\<close> (the type of \<open>millis()\<close> and of the timing parameters) a 32-bit
  word. Word addition and subtraction wrap, as the unsigned C++ arithmetic does. Where
  C++ promotes \<open>uint8_t\<close> operands to \<open>int\<close> before computing
  (\<open>(_queueTail + 1) % QUEUE_SIZE\<close>), the model computes on \<open>nat\<close> and converts
  back with \<open>of_nat\<close>.
\<close>

type_synonym uint8_t = "8 word"
type_synonym ulong = "32 word"

datatype Type = NONE | WRITE_CHAR | SPECIAL_CMD | SETTING_CMD | RGB_CMD

text \<open>\<open>struct LCDCommand\<close>; the array \<open>data[3]\<close> is the three fields \<open>data0\<close>,
  \<open>data1\<close>, \<open>data2\<close>.\<close>

record LCDCommand =
  type :: Type
  data0 :: uint8_t
  data1 :: uint8_t
  data2 :: uint8_t
  dataLen :: uint8_t

datatype State = READY | PROCESSING | AWAITING_RESPONSE | ERROR

text \<open>
  The object's members, the static \<open>_SerLCD0_ErrorThreshold\<close>, and the part of the
  Arduino environment the driver touches:
  \<^item> \<open>clock\<close> and \<open>reads\<close>: the \<open>n\<close>-th call of \<open>millis()\<close> returns \<open>clock n\<close>;
    \<open>reads\<close> counts the calls made so far;
  \<^item> \<open>wire_ack\<close>: the status \<open>endTransmission()\<close> returns for the \<open>n\<close>-th
    transaction (0 is success); \<open>wire_addr\<close> and \<open>wire_buf\<close> are the transmit buffer
    between \<open>beginTransmission\<close> and \<open>endTransmission\<close>; \<open>wire_log\<close> lists the
    completed transactions, oldest first, each with the bytes written and its status;
  \<^item> \<open>local_cmd\<close>: the contents of the uninitialised local \<open>LCDCommand cmd\<close> of the
    convenience calls, which set only some of its fields.
  The static debug flag only guards \<open>Serial\<close> diagnostics and is left out together
  with them.
\<close>

record SerLCD0 =
  cmdQueue :: "LCDCommand list"
  queueHead :: uint8_t
  queueTail :: uint8_t
  initTime :: ulong
  cmdTime :: ulong
  clearTime :: ulong
  errorResetTime :: ulong
  i2cAddr :: uint8_t
  state :: State
  lastActionTime :: ulong
  errorCount :: uint8_t
  needsFullRefresh :: bool
  ErrorThreshold :: uint8_t
  clock :: "nat \<Rightarrow> ulong"
  reads :: nat
  wire_ack :: "nat \<Rightarrow> uint8_t"
  wire_addr :: uint8_t
  wire_buf :: "uint8_t list"
  wire_log :: "(uint8_t list \<times> uint8_t) list"
  local_cmd :: LCDCommand

definition QUEUE_SIZE :: nat where "QUEUE_SIZE = 32"
definition SPECIAL_COMMAND :: uint8_t where "SPECIAL_COMMAND = 254"
definition SETTING_COMMAND :: uint8_t where "SETTING_COMMAND = 0x7C"
definition CLEAR_COMMAND :: uint8_t where "CLEAR_COMMAND = 0x01"
definition HOME_COMMAND :: uint8_t where "HOME_COMMAND = 0x02"
definition RGB_COMMAND :: uint8_t where "RGB_COMMAND = 0x2B"

section \<open>Environment: clock and I2C bus\<close>

definition millis :: "SerLCD0 \<Rightarrow> ulong \<times> SerLCD0" where
  "millis s = (clock s (reads s), s\<lparr>reads := Suc (reads s)\<rparr>)"

definition beginTransmission :: "uint8_t \<Rightarrow> SerLCD0 \<Rightarrow> SerLCD0" where
  "beginTransmission a s = s\<lparr>wire_addr := a, wire_buf := []\<rparr>"

definition wire_write :: "uint8_t \<Rightarrow> SerLCD0 \<Rightarrow> SerLCD0" where
  "wire_write b s = s\<lparr>wire_buf := wire_buf s @ [b]\<rparr>"

definition endTransmission :: "SerLCD0 \<Rightarrow> uint8_t \<times> SerLCD0" where
  "endTransmission s =
     (let r = wire_ack s (length (wire_log s))
      in (r, s\<lparr>wire_log := wire_log s @ [(wire_buf s, r)], wire_buf := []\<rparr>))"

section \<open>The driver (SerLCD0.cpp)\<close>

text \<open>The constructor runs on uninitialised storage \<open>s\<close>; the timing parameters get
  their in-class initialisers, \<open>_cmdQueue\<close> and \<open>_lastActionTime\<close> stay as they were.\<close>

definition SerLCD0_ctor :: "uint8_t \<Rightarrow> SerLCD0 \<Rightarrow> SerLCD0" where
  "SerLCD0_ctor i2c_addr s =
     s\<lparr>initTime := 1000, cmdTime := 5, clearTime := 50, errorResetTime := 100,
       i2cAddr := i2c_addr, state := READY, queueHead := 0, queueTail := 0,
       errorCount := 0, needsFullRefresh := True\<rparr>"

definition setSerLCD0_ErrorThreshold :: "uint8_t \<Rightarrow> SerLCD0 \<Rightarrow> SerLCD0" where
  "setSerLCD0_ErrorThreshold threshold s = s\<lparr>ErrorThreshold := threshold\<rparr>"

definition resetQueue :: "SerLCD0 \<Rightarrow> SerLCD0" where
  "resetQueue s = s\<lparr>queueHead := 0, queueTail := 0\<rparr>"

definition handleError :: "SerLCD0 \<Rightarrow> SerLCD0" where
  "handleError s0 =
     (let s1 = s0\<lparr>errorCount := errorCount s0 + 1\<rparr>;
          s2 = (if errorCount s1 > ErrorThreshold s1
                then resetQueue (s1\<lparr>state := ERROR, needsFullRefresh := True\<rparr>)
                else s1);
          (t, s3) = millis s2
      in s3\<lparr>lastActionTime := t\<rparr>)"

text \<open>\<open>_cmdQueue[_queueTail] = cmd\<close> is a plain array store: it is defined only for
  \<open>_queueTail < QUEUE_SIZE\<close>, which \<open>queue_ok\<close> below states and every operation keeps.\<close>

definition queueCommand :: "LCDCommand \<Rightarrow> SerLCD0 \<Rightarrow> bool \<times> SerLCD0" where
  "queueCommand cmd s =
     (let nextTail = (of_nat ((unat (queueTail s) + 1) mod QUEUE_SIZE) :: uint8_t)
      in if nextTail = queueHead s then (False, handleError s)
         else (True, s\<lparr>cmdQueue := (cmdQueue s)[unat (queueTail s) := cmd],
                        queueTail := nextTail\<rparr>))"

definition finishTransmission :: "SerLCD0 \<Rightarrow> bool \<times> SerLCD0" where
  "finishTransmission s = (let (r, s') = endTransmission s in (r = 0, s'))"

definition sendCommand :: "LCDCommand \<Rightarrow> SerLCD0 \<Rightarrow> bool \<times> SerLCD0" where
  "sendCommand cmd s0 =
     (let s1 = beginTransmission (i2cAddr s0) s0
      in case type cmd of
           WRITE_CHAR \<Rightarrow>
             (let s2 = (if data0 cmd = SPECIAL_COMMAND \<or> data0 cmd = SETTING_COMMAND
                        then wire_write (data0 cmd) s1 else s1)
              in finishTransmission (wire_write (data0 cmd) s2))
         | SPECIAL_CMD \<Rightarrow>
             finishTransmission (wire_write (data0 cmd) (wire_write SPECIAL_COMMAND s1))
         | SETTING_CMD \<Rightarrow>
             finishTransmission (wire_write (data0 cmd) (wire_write SETTING_COMMAND s1))
         | RGB_CMD \<Rightarrow>
             finishTransmission
               (wire_write (data2 cmd) (wire_write (data1 cmd) (wire_write (data0 cmd)
                 (wire_write RGB_COMMAND (wire_write SETTING_COMMAND s1)))))
         | NONE \<Rightarrow> (False, s1))"

definition processNextCommand :: "SerLCD0 \<Rightarrow> bool \<times> SerLCD0" where
  "processNextCommand s =
     (if state s \<noteq> READY \<or> queueHead s = queueTail s then (False, s)
      else
        let cmd = cmdQueue s ! unat (queueHead s);
            (ok, s1) = sendCommand cmd s
        in if ok then
             let s2 = s1\<lparr>queueHead := of_nat ((unat (queueHead s1) + 1) mod QUEUE_SIZE),
                        state := PROCESSING\<rparr>;
                 (t, s3) = millis s2
             in (True, s3\<lparr>lastActionTime := t\<rparr>)
           else (False, handleError s1))"

definition write_char :: "uint8_t \<Rightarrow> SerLCD0 \<Rightarrow> nat \<times> SerLCD0" where
  "write_char b s =
     (let cmd = (local_cmd s)\<lparr>type := WRITE_CHAR, data0 := b, dataLen := 1\<rparr>;
          (ok, s') = queueCommand cmd s
      in (if ok then 1 else 0, s'))"

definition clear :: "SerLCD0 \<Rightarrow> SerLCD0" where
  "clear s =
     (let cmd = (local_cmd s)\<lparr>type := SPECIAL_CMD, data0 := CLEAR_COMMAND, dataLen := 1\<rparr>
      in snd (queueCommand cmd s))"

definition home :: "SerLCD0 \<Rightarrow> SerLCD0" where
  "home s =
     (let cmd = (local_cmd s)\<lparr>type := SPECIAL_CMD, data0 := HOME_COMMAND, dataLen := 1\<rparr>
      in snd (queueCommand cmd s))"

definition row_offsets :: "uint8_t list" where
  "row_offsets = [0x00, 0x40, 0x14, 0x54]"

text \<open>\<open>0x80 | (col + row_offsets[row])\<close> is computed on \<open>int\<close> and truncated by the
  store into \<open>data[0]\<close>; truncation commutes with addition and with \<open>|\<close>, so the
  8-bit computation gives the same byte.\<close>

definition setCursor :: "uint8_t \<Rightarrow> uint8_t \<Rightarrow> SerLCD0 \<Rightarrow> SerLCD0" where
  "setCursor col row0 s =
     (let row = min row0 3;
          cmd = (local_cmd s)\<lparr>type := SPECIAL_CMD,
                   data0 := 0x80 OR (col + row_offsets ! unat row), dataLen := 1\<rparr>
      in snd (queueCommand cmd s))"

definition setBacklight :: "uint8_t \<Rightarrow> uint8_t \<Rightarrow> uint8_t \<Rightarrow> SerLCD0 \<Rightarrow> SerLCD0" where
  "setBacklight r g b s =
     (let cmd = (local_cmd s)\<lparr>type := RGB_CMD, data0 := r, data1 := g, data2 := b,
                   dataLen := 3\<rparr>
      in snd (queueCommand cmd s))"

definition reinitialize :: "SerLCD0 \<Rightarrow> SerLCD0" where
  "reinitialize s0 =
     (let s1 = resetQueue s0;
          s2 = s1\<lparr>state := PROCESSING\<rparr>;
          (t, s3) = millis s2;
          s4 = s3\<lparr>lastActionTime := t, errorCount := 0, needsFullRefresh := True\<rparr>;
          s5 = clear s4
      in setBacklight 255 255 255 s5)"

definition update :: "SerLCD0 \<Rightarrow> bool \<times> SerLCD0" where
  "update s0 =
     (let (currentTime, s) = millis s0
      in case state s of
           PROCESSING \<Rightarrow>
             (let s1 = (if currentTime - lastActionTime s \<ge> cmdTime s
                        then s\<lparr>state := READY\<rparr> else s)
              in (state s1 = READY, s1))
         | ERROR \<Rightarrow>
             (False,
              if currentTime - lastActionTime s \<ge> errorResetTime s
              then reinitialize (s\<lparr>state := READY, errorCount := 0\<rparr>)
              else s)
         | READY \<Rightarrow>
             (if queueHead s \<noteq> queueTail s then processNextCommand s
              else (state s = READY, s))
         | AWAITING_RESPONSE \<Rightarrow> (state s = READY, s))"

text \<open>The differences are computed on \<open>int\<close> and truncated to the \<open>uint8_t\<close>
  result; truncation commutes with subtraction, so 8-bit subtraction gives the same value.\<close>

definition getQueueCount :: "SerLCD0 \<Rightarrow> uint8_t" where
  "getQueueCount s =
     (if queueTail s \<ge> queueHead s
      then queueTail s - queueHead s
      else of_nat QUEUE_SIZE - (queueHead s - queueTail s))"

definition isReady :: "SerLCD0 \<Rightarrow> bool" where
  "isReady s = (state s = READY)"

definition hasError :: "SerLCD0 \<Rightarrow> bool" where
  "hasError s = (state s = ERROR)"

section \<open>Auxiliary notions for the statements\<close>

text \<open>The bytes \<open>sendCommand\<close> writes between \<open>beginTransmission\<close> and
  \<open>endTransmission\<close>, read off its \<open>switch\<close>; lemma \<open>sendCommand_valid\<close> below ties
  it to the code.\<close>

definition cmd_bytes :: "LCDCommand \<Rightarrow> uint8_t list" where
  "cmd_bytes cmd =
     (case type cmd of
        WRITE_CHAR \<Rightarrow>
          (if data0 cmd = SPECIAL_COMMAND \<or> data0 cmd = SETTING_COMMAND
           then [data0 cmd, data0 cmd] else [data0 cmd])
      | SPECIAL_CMD \<Rightarrow> [SPECIAL_COMMAND, data0 cmd]
      | SETTING_CMD \<Rightarrow> [SETTING_COMMAND, data0 cmd]
      | RGB_CMD \<Rightarrow> [SETTING_COMMAND, RGB_COMMAND, data0 cmd, data1 cmd, data2 cmd]
      | NONE \<Rightarrow> [])"

text \<open>The array has \<open>QUEUE_SIZE\<close> slots and both indices point into it.\<close>

definition queue_ok :: "SerLCD0 \<Rightarrow> bool" where
  "queue_ok s = (length (cmdQueue s) = QUEUE_SIZE \<and> queueHead s < 32 \<and> queueTail s < 32)"

text \<open>The pending commands, oldest first: the slots from \<open>_queueHead\<close> up to, not
  including, \<open>_queueTail\<close>, around the end of the array.\<close>

definition queue_list :: "SerLCD0 \<Rightarrow> LCDCommand list" where
  "queue_list s =
     map (\<lambda>i. cmdQueue s ! ((unat (queueHead s) + i) mod QUEUE_SIZE))
       [0..<unat (getQueueCount s)]"

text \<open>The three members that make up the queue.\<close>

definition queue_of :: "SerLCD0 \<Rightarrow> LCDCommand list \<times> uint8_t \<times> uint8_t" where
  "queue_of s = (cmdQueue s, queueHead s, queueTail s)"

definition qcount :: "nat \<Rightarrow> nat \<Rightarrow> nat" where
  "qcount h t = (if h \<le> t then t - h else 32 - (h - t))"

definition ring :: "'a list \<Rightarrow> nat \<Rightarrow> nat \<Rightarrow> 'a list" where
  "ring q h n = map (\<lambda>i. q ! ((h + i) mod 32)) [0..<n]"

text \<open>A concrete driver for the examples: zeroed storage with the static threshold at
  its initial value 1, a clock \<open>clk\<close> and a bus \<open>ack\<close>, after the constructor.\<close>

definition blank_cmd :: LCDCommand where
  "blank_cmd = \<lparr>type = NONE, data0 = 0, data1 = 0, data2 = 0, dataLen = 0\<rparr>"

definition power_on :: "(nat \<Rightarrow> ulong) \<Rightarrow> (nat \<Rightarrow> uint8_t) \<Rightarrow> SerLCD0" where
  "power_on clk ack =
     SerLCD0_ctor 0x72
       \<lparr>cmdQueue = replicate 32 blank_cmd, queueHead = 0, queueTail = 0, initTime = 0,
        cmdTime = 0, clearTime = 0, errorResetTime = 0, i2cAddr = 0, state = READY,
        lastActionTime = 0, errorCount = 0, needsFullRefresh = False, ErrorThreshold = 1,
        clock = clk, reads = 0, wire_ack = ack, wire_addr = 0, wire_buf = [],
        wire_log = [], local_cmd = blank_cmd\<rparr>"

text \<open>Two drivers reached by the code's own operations: \<open>flaky_once\<close> holds one
  queued \<open>clear()\<close> on a bus whose first transaction fails (status 4) and whose later
  ones succeed; \<open>escalated\<close> has seen two failures, one more than the threshold, with
  a clock that advances 1000 ms per reading.\<close>

definition flaky_once :: SerLCD0 where
  "flaky_once = clear (power_on (\<lambda>n. 0) (\<lambda>n. if n = 0 then 4 else 0))"

definition escalated :: SerLCD0 where
  "escalated = handleError (handleError (power_on (\<lambda>n. 1000 * of_nat n) (\<lambda>n. 0)))"

text \<open>\<open>never_escalates\<close> is the driver after \<open>setSerLCD0_ErrorThreshold(255)\<close>.\<close>

definition never_escalates :: SerLCD0 where
  "never_escalates = setSerLCD0_ErrorThreshold 255 (power_on (\<lambda>n. 0) (\<lambda>n. 0))"

text \<open>Consecutive \<open>queueCommand\<close> calls, with their results in call order.\<close>

fun enqueue_all :: "LCDCommand list \<Rightarrow> SerLCD0 \<Rightarrow> bool list \<times> SerLCD0" where
  "enqueue_all [] s = ([], s)"
| "enqueue_all (c # cs) s =
     (let (r, s') = queueCommand c s; (rs, s'') = enqueue_all cs s' in (r # rs, s''))"

text \<open>\<open>n\<close> consecutive calls of \<open>update\<close>, with their results in call order.\<close>

fun ticks :: "nat \<Rightarrow> SerLCD0 \<Rightarrow> bool list \<times> SerLCD0" where
  "ticks 0 s = ([], s)"
| "ticks (Suc n) s =
     (let (r, s') = update s; (rs, s'') = ticks n s' in (r # rs, s''))"

text \<open>The scenario's driver: the clock advances 3 ms per reading, the bus always
  succeeds; \<open>scenario_queued\<close> is the driver after \<open>clear()\<close> and
  \<open>setBacklight(10, 20, 30)\<close>.\<close>

definition scenario_start :: SerLCD0 where
  "scenario_start = power_on (\<lambda>n. 3 * of_nat n) (\<lambda>n. 0)"

definition scenario_queued :: SerLCD0 where
  "scenario_queued = setBacklight 10 20 30 (clear scenario_start)"

subsection \<open>Runs of the driver\<close>

text \<open>
  A caller's run is a list of events, each either a \<open>queueCommand\<close> call or a tick.
  \<open>accepted\<close> lists the commands whose \<open>queueCommand\<close> returned true, in call order;
  \<open>calm\<close> says that the state is not \<open>ERROR\<close> before the run, between its events and
  after it; \<open>bus_trace\<close> is what the run added to the bus log and \<open>delivered\<close> keeps
  the transactions that succeeded. \<open>replay q log\<close> checks a bus log against a list of
  pending commands: every transaction carries the bytes of the first pending command, which
  leaves the list when the transaction succeeded; the result is what is still pending.
\<close>

datatype event = Enqueue LCDCommand | Tick

fun step :: "event \<Rightarrow> SerLCD0 \<Rightarrow> SerLCD0" where
  "step (Enqueue c) s = snd (queueCommand c s)"
| "step Tick s = snd (update s)"

fun run :: "event list \<Rightarrow> SerLCD0 \<Rightarrow> SerLCD0" where
  "run [] s = s"
| "run (e # es) s = run es (step e s)"






text \<open>\<open>failures\<close> counts the rejected \<open>queueCommand\<close> calls and the failed sends of a
  run; \<open>steady\<close> says that the state is not \<open>ERROR\<close> before any of its events (it may
  be after the last).\<close>

fun failures :: "event list \<Rightarrow> SerLCD0 \<Rightarrow> nat" where
  "failures [] s = 0"
| "failures (Enqueue c # es) s =
     (if fst (queueCommand c s) then 0 else 1) + failures es (snd (queueCommand c s))"
| "failures (Tick # es) s =
     (if state s = READY \<and> queueHead s \<noteq> queueTail s \<and> \<not> fst (update s) then 1 else 0) +
     failures es (snd (update s))"

fun steady :: "event list \<Rightarrow> SerLCD0 \<Rightarrow> bool" where
  "steady [] s = True"
| "steady (e # es) s = (state s \<noteq> ERROR \<and> steady es (step e s))"

text \<open>Example runs: two characters with one failed transaction in between, and three
  characters where the first and the last transaction fail.\<close>

definition char_cmd :: "uint8_t \<Rightarrow> LCDCommand" where
  "char_cmd b = blank_cmd\<lparr>type := WRITE_CHAR, data0 := b, dataLen := 1\<rparr>"



definition interleaved_run :: "event list" where
  "interleaved_run =
     [Enqueue (char_cmd 0x41), Enqueue (char_cmd 0x42), Enqueue (char_cmd 0x43),
      Tick, Tick, Tick, Tick, Tick, Tick]"

definition interleaved_start :: SerLCD0 where
  "interleaved_start = power_on (\<lambda>n. 10 * of_nat n) (\<lambda>n. if n = 0 \<or> n = 3 then 4 else 0)"

text \<open>Two full queues with the same slots and indices, both in \<open>READY\<close>: one on a
  fresh driver, one on a driver that has already counted one failure.\<close>

definition one_failure :: SerLCD0 where
  "one_failure = handleError (power_on (\<lambda>n. 0) (\<lambda>n. 0))"

definition full_fresh :: SerLCD0 where
  "full_fresh = snd (enqueue_all (replicate 31 (char_cmd 0x41)) (power_on (\<lambda>n. 0) (\<lambda>n. 0)))"

definition full_after_failure :: SerLCD0 where
  "full_after_failure = snd (enqueue_all (replicate 31 (char_cmd 0x41)) one_failure)"

section \<open>The protocol encoder\<close>

lemmas lcd_consts = QUEUE_SIZE_def SPECIAL_COMMAND_def SETTING_COMMAND_def
  CLEAR_COMMAND_def HOME_COMMAND_def RGB_COMMAND_def


lemma sendCommand_valid:
  "type cmd \<noteq> NONE \<Longrightarrow>
   sendCommand cmd s =
     (wire_ack s (length (wire_log s)) = 0,
      s\<lparr>wire_addr := i2cAddr s, wire_buf := [],
        wire_log := wire_log s @ [(cmd_bytes cmd, wire_ack s (length (wire_log s)))]\<rparr>)"
  by (cases "type cmd")
     (simp_all add: sendCommand_def cmd_bytes_def finishTransmission_def endTransmission_def
        wire_write_def beginTransmission_def Let_def)

lemma sendCommand_NONE:
  "type cmd = NONE \<Longrightarrow>
   sendCommand cmd s = (False, s\<lparr>wire_addr := i2cAddr s, wire_buf := []\<rparr>)"
  by (simp add: sendCommand_def beginTransmission_def)

text \<open>
  Claim C8. Sending a \<open>WRITE_CHAR\<close> command whose byte is the special-command prefix
  (254) or the setting-command prefix (0x7C) puts one transaction on the bus with exactly
  two bytes, both that value; for any other byte the transaction has exactly that one
  byte.
\<close>

theorem sendCommand_WRITE_CHAR_escape:
  "type cmd = WRITE_CHAR \<Longrightarrow>
   wire_log (snd (sendCommand cmd s)) =
     wire_log s @
       [(if data0 cmd = 254 \<or> data0 cmd = 0x7C then [data0 cmd, data0 cmd] else [data0 cmd],
         wire_ack s (length (wire_log s)))]"
  by (simp add: sendCommand_def finishTransmission_def endTransmission_def wire_write_def
      beginTransmission_def Let_def lcd_consts)

theorem sendCommand_WRITE_CHAR_escape_witness:
  "wire_log (snd (sendCommand (blank_cmd\<lparr>type := WRITE_CHAR, data0 := 254\<rparr>)
      (power_on (\<lambda>n. 0) (\<lambda>n. 0)))) = [([254, 254], 0)] \<and>
   wire_log (snd (sendCommand (blank_cmd\<lparr>type := WRITE_CHAR, data0 := 0x7C\<rparr>)
      (power_on (\<lambda>n. 0) (\<lambda>n. 0)))) = [([0x7C, 0x7C], 0)] \<and>
   wire_log (snd (sendCommand (blank_cmd\<lparr>type := WRITE_CHAR, data0 := 0x41\<rparr>)
      (power_on (\<lambda>n. 0) (\<lambda>n. 0)))) = [([0x41], 0)]"
  using sendCommand_WRITE_CHAR_escape
      [of "blank_cmd\<lparr>type := WRITE_CHAR, data0 := 254\<rparr>" "power_on (\<lambda>n. 0) (\<lambda>n. 0)"]
    sendCommand_WRITE_CHAR_escape
      [of "blank_cmd\<lparr>type := WRITE_CHAR, data0 := 0x7C\<rparr>" "power_on (\<lambda>n. 0) (\<lambda>n. 0)"]
    sendCommand_WRITE_CHAR_escape
      [of "blank_cmd\<lparr>type := WRITE_CHAR, data0 := 0x41\<rparr>" "power_on (\<lambda>n. 0) (\<lambda>n. 0)"]
  by (simp add: power_on_def SerLCD0_ctor_def blank_cmd_def)

section \<open>Enqueueing does not look at the dispatch state\<close>

lemma handleError_state_update:
  "handleError (s\<lparr>state := st\<rparr>) =
     (handleError s)\<lparr>state := (if errorCount s + 1 > ErrorThreshold s then ERROR else st)\<rparr>"
  by (simp add: handleError_def millis_def resetQueue_def Let_def)

lemma queueCommand_state_update:
  "queueCommand cmd (s\<lparr>state := st\<rparr>) =
     (fst (queueCommand cmd s),
      (snd (queueCommand cmd s))\<lparr>state := state (snd (queueCommand cmd (s\<lparr>state := st\<rparr>)))\<rparr>)"
  by (simp add: queueCommand_def handleError_state_update Let_def)

text \<open>
  Claim C9 (as amended). Whether \<open>queueCommand\<close> accepts a command is decided by the
  two queue indices alone, and the queue it leaves (slots, head and tail) is determined by
  the queue, the command and, when the queue is full, the error counter and the threshold
  (escalation in \<open>handleError\<close> resets the indices). Neither depends on the dispatch
  state: two drivers that differ only in \<open>_state\<close> get the same result and the same
  resulting queue, also through \<open>write\<close>, \<open>clear\<close>, \<open>home\<close>, \<open>setCursor\<close> and
  \<open>setBacklight\<close>, and the error counter moves the same way.
\<close>

theorem queueCommand_ignores_state:
  "fst (queueCommand cmd s) =
     (of_nat ((unat (queueTail s) + 1) mod QUEUE_SIZE) \<noteq> queueHead s) \<and>
   queue_of (snd (queueCommand cmd s)) =
     (if of_nat ((unat (queueTail s) + 1) mod QUEUE_SIZE) \<noteq> queueHead s
      then ((cmdQueue s)[unat (queueTail s) := cmd], queueHead s,
            of_nat ((unat (queueTail s) + 1) mod QUEUE_SIZE))
      else if errorCount s + 1 > ErrorThreshold s then (cmdQueue s, 0, 0)
      else queue_of s) \<and>
   fst (queueCommand cmd (s\<lparr>state := st\<rparr>)) = fst (queueCommand cmd s) \<and>
   queue_of (snd (queueCommand cmd (s\<lparr>state := st\<rparr>))) = queue_of (snd (queueCommand cmd s)) \<and>
   errorCount (snd (queueCommand cmd (s\<lparr>state := st\<rparr>))) = errorCount (snd (queueCommand cmd s)) \<and>
   fst (write_char b (s\<lparr>state := st\<rparr>)) = fst (write_char b s) \<and>
   queue_of (snd (write_char b (s\<lparr>state := st\<rparr>))) = queue_of (snd (write_char b s)) \<and>
   queue_of (clear (s\<lparr>state := st\<rparr>)) = queue_of (clear s) \<and>
   queue_of (home (s\<lparr>state := st\<rparr>)) = queue_of (home s) \<and>
   queue_of (setCursor col row (s\<lparr>state := st\<rparr>)) = queue_of (setCursor col row s) \<and>
   queue_of (setBacklight r g bl (s\<lparr>state := st\<rparr>)) = queue_of (setBacklight r g bl s)"
proof -
  have q: "fst (queueCommand c (s\<lparr>state := st\<rparr>)) = fst (queueCommand c s) \<and>
      queue_of (snd (queueCommand c (s\<lparr>state := st\<rparr>))) = queue_of (snd (queueCommand c s)) \<and>
      errorCount (snd (queueCommand c (s\<lparr>state := st\<rparr>))) = errorCount (snd (queueCommand c s))"
    for c
    by (subst (1 2 3) queueCommand_state_update) (simp add: queue_of_def)
  have r: "fst (queueCommand cmd s) =
      (of_nat ((unat (queueTail s) + 1) mod QUEUE_SIZE) \<noteq> queueHead s)"
    by (simp add: queueCommand_def Let_def)
  have l: "queue_of (snd (queueCommand cmd s)) =
     (if of_nat ((unat (queueTail s) + 1) mod QUEUE_SIZE) \<noteq> queueHead s
      then ((cmdQueue s)[unat (queueTail s) := cmd], queueHead s,
            of_nat ((unat (queueTail s) + 1) mod QUEUE_SIZE))
      else if errorCount s + 1 > ErrorThreshold s then (cmdQueue s, 0, 0)
      else queue_of s)"
    by (simp add: queueCommand_def handleError_def millis_def resetQueue_def queue_of_def
        Let_def)
  have rest: "fst (write_char b (s\<lparr>state := st\<rparr>)) = fst (write_char b s) \<and>
      queue_of (snd (write_char b (s\<lparr>state := st\<rparr>))) = queue_of (snd (write_char b s)) \<and>
      queue_of (clear (s\<lparr>state := st\<rparr>)) = queue_of (clear s) \<and>
      queue_of (home (s\<lparr>state := st\<rparr>)) = queue_of (home s) \<and>
      queue_of (setCursor col row (s\<lparr>state := st\<rparr>)) = queue_of (setCursor col row s) \<and>
      queue_of (setBacklight r g bl (s\<lparr>state := st\<rparr>)) = queue_of (setBacklight r g bl s)"
    using q by (simp add: write_char_def clear_def home_def setCursor_def setBacklight_def
        Let_def split_beta)
  show ?thesis
    by (intro conjI r l q [THEN conjunct1] q [THEN conjunct2, THEN conjunct1]
        q [THEN conjunct2, THEN conjunct2]) (use rest in simp_all)
qed

text \<open>The claim as first stated, that the outcome depends only on the queue indices and
  the command, fails: the two full queues below agree in slots, indices and state, and
  the same rejected command leaves 31 commands queued in one and none in the other,
  because the second driver's error counter then exceeds the threshold.\<close>

theorem queueCommand_ignores_state_counterexample:
  "queue_of full_fresh = queue_of full_after_failure \<and>
   state full_fresh = READY \<and> state full_after_failure = READY \<and>
   errorCount full_fresh = 0 \<and> errorCount full_after_failure = 1 \<and>
   ErrorThreshold full_fresh = 1 \<and> ErrorThreshold full_after_failure = 1 \<and>
   fst (queueCommand (char_cmd 0x42) full_fresh) = False \<and>
   fst (queueCommand (char_cmd 0x42) full_after_failure) = False \<and>
   length (queue_list (snd (queueCommand (char_cmd 0x42) full_fresh))) = 31 \<and>
   queueTail (snd (queueCommand (char_cmd 0x42) full_fresh)) = 31 \<and>
   queue_list (snd (queueCommand (char_cmd 0x42) full_after_failure)) = [] \<and>
   queueTail (snd (queueCommand (char_cmd 0x42) full_after_failure)) = 0"
  by (intro conjI; code_simp)

section \<open>One tick of the state machine, case by case\<close>

lemma handleError_below:
  "\<not> errorCount s + 1 > ErrorThreshold s \<Longrightarrow>
   handleError s =
     s\<lparr>errorCount := errorCount s + 1, reads := Suc (reads s),
       lastActionTime := clock s (reads s)\<rparr>"
  by (simp add: handleError_def millis_def Let_def)

lemma handleError_above:
  "errorCount s + 1 > ErrorThreshold s \<Longrightarrow>
   handleError s =
     s\<lparr>errorCount := errorCount s + 1, state := ERROR, needsFullRefresh := True,
       queueHead := 0, queueTail := 0, reads := Suc (reads s),
       lastActionTime := clock s (reads s)\<rparr>"
  by (simp add: handleError_def millis_def resetQueue_def Let_def)

lemma update_PROCESSING:
  "state s = PROCESSING \<Longrightarrow>
   update s =
     (cmdTime s \<le> clock s (reads s) - lastActionTime s,
      s\<lparr>reads := Suc (reads s),
        state := (if cmdTime s \<le> clock s (reads s) - lastActionTime s
                  then READY else PROCESSING)\<rparr>)"
  by (simp add: update_def millis_def Let_def)

lemma update_AWAITING:
  "state s = AWAITING_RESPONSE \<Longrightarrow> update s = (False, s\<lparr>reads := Suc (reads s)\<rparr>)"
  by (simp add: update_def millis_def Let_def)

lemma update_ERROR_wait:
  "state s = ERROR \<Longrightarrow> \<not> errorResetTime s \<le> clock s (reads s) - lastActionTime s \<Longrightarrow>
   update s = (False, s\<lparr>reads := Suc (reads s)\<rparr>)"
  by (simp add: update_def millis_def Let_def)

lemma update_ERROR_recover:
  "state s = ERROR \<Longrightarrow> errorResetTime s \<le> clock s (reads s) - lastActionTime s \<Longrightarrow>
   update s =
     (False, reinitialize (s\<lparr>reads := Suc (reads s), state := READY, errorCount := 0\<rparr>))"
  by (simp add: update_def millis_def Let_def)

lemma update_READY_empty:
  "state s = READY \<Longrightarrow> queueHead s = queueTail s \<Longrightarrow>
   update s = (True, s\<lparr>reads := Suc (reads s)\<rparr>)"
  by (simp add: update_def millis_def Let_def)

lemma update_READY_sent:
  "state s = READY \<Longrightarrow> queueHead s \<noteq> queueTail s \<Longrightarrow>
   type (cmdQueue s ! unat (queueHead s)) \<noteq> NONE \<Longrightarrow>
   wire_ack s (length (wire_log s)) = 0 \<Longrightarrow>
   update s =
     (True,
      s\<lparr>reads := Suc (Suc (reads s)), wire_addr := i2cAddr s, wire_buf := [],
        wire_log := wire_log s @ [(cmd_bytes (cmdQueue s ! unat (queueHead s)), 0)],
        queueHead := of_nat ((unat (queueHead s) + 1) mod QUEUE_SIZE),
        state := PROCESSING, lastActionTime := clock s (Suc (reads s))\<rparr>)"
  by (simp add: update_def millis_def Let_def processNextCommand_def sendCommand_valid)

lemma update_READY_failed:
  "state s = READY \<Longrightarrow> queueHead s \<noteq> queueTail s \<Longrightarrow>
   type (cmdQueue s ! unat (queueHead s)) \<noteq> NONE \<Longrightarrow>
   wire_ack s (length (wire_log s)) \<noteq> 0 \<Longrightarrow>
   update s =
     (False,
      handleError (s\<lparr>reads := Suc (reads s), wire_addr := i2cAddr s, wire_buf := [],
        wire_log := wire_log s @ [(cmd_bytes (cmdQueue s ! unat (queueHead s)),
                                    wire_ack s (length (wire_log s)))]\<rparr>))"
  by (simp add: update_def millis_def Let_def processNextCommand_def sendCommand_valid)

lemma update_READY_invalid:
  "state s = READY \<Longrightarrow> queueHead s \<noteq> queueTail s \<Longrightarrow>
   type (cmdQueue s ! unat (queueHead s)) = NONE \<Longrightarrow>
   update s =
     (False,
      handleError (s\<lparr>reads := Suc (reads s), wire_addr := i2cAddr s, wire_buf := []\<rparr>))"
  by (simp add: update_def millis_def Let_def processNextCommand_def sendCommand_NONE)

lemma reinitialize_eq:
  "reinitialize s =
     s\<lparr>queueHead := 0, queueTail := 2, state := PROCESSING, reads := Suc (reads s),
       lastActionTime := clock s (reads s), errorCount := 0, needsFullRefresh := True,
       cmdQueue := (cmdQueue s)
         [0 := (local_cmd s)\<lparr>type := SPECIAL_CMD, data0 := CLEAR_COMMAND, dataLen := 1\<rparr>,
          1 := (local_cmd s)\<lparr>type := RGB_CMD, data0 := 255, data1 := 255, data2 := 255,
                 dataLen := 3\<rparr>]\<rparr>"
  by (simp add: reinitialize_def resetQueue_def millis_def clear_def setBacklight_def
      queueCommand_def Let_def QUEUE_SIZE_def)

lemma power_on_simps:
  "state (power_on clk ack) = READY"
  "queueHead (power_on clk ack) = 0"
  "queueTail (power_on clk ack) = 0"
  "cmdQueue (power_on clk ack) = replicate 32 blank_cmd"
  "errorCount (power_on clk ack) = 0"
  "ErrorThreshold (power_on clk ack) = 1"
  "clock (power_on clk ack) = clk"
  "reads (power_on clk ack) = 0"
  "wire_ack (power_on clk ack) = ack"
  "wire_log (power_on clk ack) = []"
  "local_cmd (power_on clk ack) = blank_cmd"
  "cmdTime (power_on clk ack) = 5"
  "errorResetTime (power_on clk ack) = 100"
  "lastActionTime (power_on clk ack) = 0"
  "i2cAddr (power_on clk ack) = 0x72"
  by (simp_all add: power_on_def SerLCD0_ctor_def)

lemma flaky_once_simps:
  "state flaky_once = READY" "queueHead flaky_once = 0" "queueTail flaky_once = 1"
  "cmdQueue flaky_once ! 0 = \<lparr>type = SPECIAL_CMD, data0 = 1, data1 = 0, data2 = 0, dataLen = 1\<rparr>"
  "wire_log flaky_once = []" "errorCount flaky_once = 0" "ErrorThreshold flaky_once = 1"
  "wire_ack flaky_once = (\<lambda>n. if n = 0 then 4 else 0)"
  by (simp_all add: flaky_once_def clear_def queueCommand_def power_on_simps Let_def lcd_consts
      blank_cmd_def)

lemma escalated_simps:
  "state escalated = ERROR" "errorCount escalated = 2" "reads escalated = 2"
  "lastActionTime escalated = 1000" "errorResetTime escalated = 100"
  "clock escalated = (\<lambda>n. 1000 * of_nat n)" "length (cmdQueue escalated) = 32"
  "cmdTime escalated = 5"
  by (simp_all add: escalated_def handleError_def millis_def resetQueue_def power_on_simps
      Let_def)

lemma queue_list_two:
  "queueHead s = 0 \<Longrightarrow> queueTail s = 2 \<Longrightarrow> queue_list s = [cmdQueue s ! 0, cmdQueue s ! 1]"
proof -
  have "[0..<2] = [0, Suc 0]" by (simp add: numeral_2_eq_2)
  then show "queueHead s = 0 \<Longrightarrow> queueTail s = 2 \<Longrightarrow> ?thesis"
    by (simp add: queue_list_def getQueueCount_def QUEUE_SIZE_def)
qed

section \<open>What the tick returns\<close>




section \<open>A failed transaction below the threshold\<close>

text \<open>
  Claim C1 (as amended). From \<open>READY\<close> with a non-empty queue, when the bus transaction
  for the head command fails and the incremented error counter does not exceed the
  threshold, the tick returns false, stays in \<open>READY\<close> and leaves the queue as it was:
  the failed command is still at the head, and the next tick puts the same bytes on the
  bus again.
\<close>

theorem failed_send_keeps_command:
  assumes "state s = READY" and "queueHead s \<noteq> queueTail s"
    and "type (cmdQueue s ! unat (queueHead s)) \<noteq> NONE"
    and "wire_ack s (length (wire_log s)) \<noteq> 0"
    and "errorCount s + 1 \<le> ErrorThreshold s"
  shows "fst (update s) = False \<and>
    state (snd (update s)) = READY \<and>
    queue_of (snd (update s)) = queue_of s \<and>
    errorCount (snd (update s)) = errorCount s + 1 \<and>
    wire_log (snd (update s)) =
      wire_log s @ [(cmd_bytes (cmdQueue s ! unat (queueHead s)),
                     wire_ack s (length (wire_log s)))] \<and>
    wire_log (snd (update (snd (update s)))) =
      wire_log s @ [(cmd_bytes (cmdQueue s ! unat (queueHead s)),
                     wire_ack s (length (wire_log s))),
                    (cmd_bytes (cmdQueue s ! unat (queueHead s)),
                     wire_ack s (Suc (length (wire_log s))))]"
proof -
  let ?c = "cmdQueue s ! unat (queueHead s)"
  let ?s1 = "s\<lparr>reads := Suc (reads s), wire_addr := i2cAddr s, wire_buf := [],
        wire_log := wire_log s @ [(cmd_bytes ?c, wire_ack s (length (wire_log s)))]\<rparr>"
  let ?t = "?s1\<lparr>errorCount := errorCount s + 1, reads := Suc (Suc (reads s)),
       lastActionTime := clock s (Suc (reads s))\<rparr>"
  have below: "\<not> errorCount ?s1 + 1 > ErrorThreshold ?s1"
    using assms(5) by simp
  have u: "update s = (False, ?t)"
    using assms(1-4) by (simp add: update_READY_failed handleError_below [OF below])
  have first: "fst (update s) = False" "state (snd (update s)) = READY"
    "queue_of (snd (update s)) = queue_of s"
    "errorCount (snd (update s)) = errorCount s + 1"
    "wire_log (snd (update s)) =
      wire_log s @ [(cmd_bytes ?c, wire_ack s (length (wire_log s)))]"
    using assms(1) by (simp_all add: u queue_of_def)
  have t: "state ?t = READY" "queueHead ?t \<noteq> queueTail ?t"
    "type (cmdQueue ?t ! unat (queueHead ?t)) \<noteq> NONE"
    using assms(1-3) by simp_all
  have "wire_log (snd (update ?t)) =
      wire_log ?t @ [(cmd_bytes ?c, wire_ack s (Suc (length (wire_log s))))]"
  proof (cases "wire_ack ?t (length (wire_log ?t)) = 0")
    case True
    show ?thesis by (subst update_READY_sent [OF t True]) (use True in simp)
  next
    case False
    show ?thesis
      by (subst update_READY_failed [OF t False]) (simp add: handleError_def millis_def
          resetQueue_def Let_def)
  qed
  then show ?thesis using first by (simp add: u)
qed

theorem failed_send_keeps_command_witness:
  "fst (update flaky_once) = False \<and> state (snd (update flaky_once)) = READY \<and>
   queue_of (snd (update flaky_once)) = queue_of flaky_once \<and>
   errorCount (snd (update flaky_once)) = 1 \<and>
   wire_log (snd (update (snd (update flaky_once)))) = [([254, 1], 4), ([254, 1], 0)]"
  using failed_send_keeps_command [of flaky_once]
  by (simp add: flaky_once_simps cmd_bytes_def lcd_consts)

text \<open>After the failed tick the queue still counts one command, the head has not
  moved, and the second tick retries it.\<close>

theorem failed_send_counterexample:
  "state flaky_once = READY \<and> queueHead flaky_once \<noteq> queueTail flaky_once \<and>
   fst (sendCommand (cmdQueue flaky_once ! unat (queueHead flaky_once)) flaky_once) = False \<and>
   errorCount (snd (update flaky_once)) \<le> ErrorThreshold (snd (update flaky_once)) \<and>
   getQueueCount flaky_once = 1 \<and>
   getQueueCount (snd (update flaky_once)) = 1 \<and>
   queueHead (snd (update flaky_once)) = queueHead flaky_once \<and>
   wire_log (snd (update flaky_once)) = [([254, 1], 4)] \<and>
   wire_log (snd (update (snd (update flaky_once)))) = [([254, 1], 4), ([254, 1], 0)]"
  by (simp add: flaky_once_simps update_def millis_def processNextCommand_def sendCommand_def
      beginTransmission_def wire_write_def finishTransmission_def endTransmission_def
      handleError_def getQueueCount_def Let_def lcd_consts)

section \<open>Recovery from the error state\<close>

text \<open>
  Claim C3 (as amended). In \<open>ERROR\<close>, once the error-recovery time has elapsed since
  \<open>_lastActionTime\<close>, one tick returns false, clears the error counter, and
  reinitialises: the queue holds exactly \<open>clear()\<close> and \<open>setBacklight(255,255,255)\<close>,
  the refresh flag is set, nothing is sent, and the state is \<open>PROCESSING\<close>, since
  \<open>reinitialize\<close> overwrites the \<open>READY\<close> just assigned. The state is \<open>READY\<close> only
  after a further tick at which the command time has elapsed.
\<close>

theorem error_recovery_tick:
  assumes "state s = ERROR"
    and "errorResetTime s \<le> clock s (reads s) - lastActionTime s"
    and "length (cmdQueue s) = QUEUE_SIZE"
  shows "fst (update s) = False \<and>
    errorCount (snd (update s)) = 0 \<and>
    state (snd (update s)) = PROCESSING \<and>
    needsFullRefresh (snd (update s)) \<and>
    lastActionTime (snd (update s)) = clock s (Suc (reads s)) \<and>
    wire_log (snd (update s)) = wire_log s \<and>
    queue_list (snd (update s)) =
      [(local_cmd s)\<lparr>type := SPECIAL_CMD, data0 := CLEAR_COMMAND, dataLen := 1\<rparr>,
       (local_cmd s)\<lparr>type := RGB_CMD, data0 := 255, data1 := 255, data2 := 255,
          dataLen := 3\<rparr>] \<and>
    state (snd (update (snd (update s)))) =
      (if cmdTime s \<le> clock s (Suc (Suc (reads s))) - clock s (Suc (reads s))
       then READY else PROCESSING)"
  using assms
  by (simp add: update_ERROR_recover reinitialize_eq update_PROCESSING queue_list_two
      QUEUE_SIZE_def)

theorem error_recovery_tick_witness:
  "fst (update escalated) = False \<and> errorCount (snd (update escalated)) = 0 \<and>
   state (snd (update escalated)) = PROCESSING \<and>
   map cmd_bytes (queue_list (snd (update escalated))) =
     [[254, 1], [0x7C, 0x2B, 255, 255, 255]] \<and>
   state (snd (update (snd (update escalated)))) = READY"
  using error_recovery_tick [of escalated]
  by (simp add: escalated_simps QUEUE_SIZE_def cmd_bytes_def lcd_consts)

text \<open>In the escalated driver the recovery time has elapsed, and the tick ends in
  \<open>PROCESSING\<close>.\<close>

theorem error_recovery_counterexample:
  "state escalated = ERROR \<and>
   errorResetTime escalated \<le> clock escalated (reads escalated) - lastActionTime escalated \<and>
   state (snd (update escalated)) = PROCESSING \<and>
   fst (update escalated) = False"
  by (simp add: escalated_simps update_def millis_def reinitialize_def resetQueue_def
      clear_def setBacklight_def queueCommand_def Let_def lcd_consts)


section \<open>Escalation at the threshold\<close>

lemma handleError_fields:
  "errorCount (handleError s) = errorCount s + 1"
  "ErrorThreshold (handleError s) = ErrorThreshold s"
  "cmdQueue (handleError s) = cmdQueue s"
  "wire_log (handleError s) = wire_log s"
  "wire_ack (handleError s) = wire_ack s"
  by (simp_all add: handleError_def millis_def resetQueue_def Let_def)

lemma handleError_iter_fields:
  "errorCount ((handleError ^^ n) s) = errorCount s + of_nat n \<and>
   ErrorThreshold ((handleError ^^ n) s) = ErrorThreshold s"
  by (induction n) (simp_all add: handleError_fields)

lemma handleError_iter_below:
  "errorCount s = 0 \<Longrightarrow> n \<le> unat (ErrorThreshold s) \<Longrightarrow>
   state ((handleError ^^ n) s) = state s \<and> queue_of ((handleError ^^ n) s) = queue_of s"
proof (induction n)
  case 0
  then show ?case by simp
next
  case (Suc n)
  let ?s = "(handleError ^^ n) s"
  have "unat (ErrorThreshold s) < 2 ^ LENGTH(8)" by (rule unsigned_less)
  then have "unat (errorCount ?s) + unat (1 :: uint8_t) < 2 ^ LENGTH(8)"
    using Suc.prems by (simp add: handleError_iter_fields unat_of_nat)
  then have "unat (errorCount ?s + 1) = unat (errorCount ?s) + unat (1 :: uint8_t)"
    by (simp only: unat_add_lem)
  then have "unat (errorCount ?s + 1) \<le> unat (ErrorThreshold ?s)"
    using Suc.prems by (simp add: handleError_iter_fields unat_of_nat)
  then have "\<not> errorCount ?s + 1 > ErrorThreshold ?s"
    by (simp add: word_less_nat_alt)
  then have "handleError ?s = ?s\<lparr>errorCount := errorCount ?s + 1, reads := Suc (reads ?s),
       lastActionTime := clock ?s (reads ?s)\<rparr>"
    by (rule handleError_below)
  then show ?case using Suc by (simp add: queue_of_def)
qed

lemma handleError_iter_max:
  "ErrorThreshold s = 255 \<Longrightarrow> state ((handleError ^^ n) s) = state s"
proof (induction n)
  case 0
  then show ?case by simp
next
  case (Suc n)
  let ?s = "(handleError ^^ n) s"
  have "unat (errorCount ?s + 1) < 2 ^ LENGTH(8)" by (rule unsigned_less)
  then have "\<not> errorCount ?s + 1 > ErrorThreshold ?s"
    using Suc.prems by (simp add: handleError_iter_fields word_less_nat_alt)
  then have "handleError ?s = ?s\<lparr>errorCount := errorCount ?s + 1, reads := Suc (reads ?s),
       lastActionTime := clock ?s (reads ?s)\<rparr>"
    by (rule handleError_below)
  then show ?case using Suc by simp
qed

lemma never_escalates_simps:
  "ErrorThreshold never_escalates = 255" "errorCount never_escalates = 0"
  "state never_escalates = READY"
  by (simp_all add: never_escalates_def setSerLCD0_ErrorThreshold_def power_on_simps)

text \<open>
  Claim C6 (as amended). With a threshold \<open>T < 255\<close>, starting from error counter 0 in
  \<open>READY\<close>: after \<open>n \<le> T\<close> consecutive calls of \<open>handleError\<close>, in particular after
  exactly \<open>T\<close>, the state is still \<open>READY\<close> and the queue (slots, head, tail) is
  untouched, and the counter reads \<open>T\<close> after \<open>T\<close> calls; the \<open>(T+1)\<close>-th call moves
  to \<open>ERROR\<close> and empties the queue.
\<close>

theorem threshold_escalation:
  assumes "ErrorThreshold s < 255" and "errorCount s = 0" and "state s = READY"
    and "n \<le> unat (ErrorThreshold s)"
  shows "state ((handleError ^^ n) s) = READY \<and>
    queue_of ((handleError ^^ n) s) = queue_of s \<and>
    errorCount ((handleError ^^ unat (ErrorThreshold s)) s) = ErrorThreshold s \<and>
    state ((handleError ^^ Suc (unat (ErrorThreshold s))) s) = ERROR \<and>
    queueHead ((handleError ^^ Suc (unat (ErrorThreshold s))) s) = 0 \<and>
    queueTail ((handleError ^^ Suc (unat (ErrorThreshold s))) s) = 0 \<and>
    getQueueCount ((handleError ^^ Suc (unat (ErrorThreshold s))) s) = 0"
proof -
  let ?T = "ErrorThreshold s"
  let ?s = "(handleError ^^ unat ?T) s"
  have c: "errorCount ?s = ?T" "ErrorThreshold ?s = ?T"
    using assms(2) by (simp_all add: handleError_iter_fields)
  have "unat ?T + unat (1 :: uint8_t) < 2 ^ LENGTH(8)"
    using assms(1) by (simp add: word_less_nat_alt)
  then have "unat (?T + 1) = unat ?T + unat (1 :: uint8_t)"
    by (simp only: unat_add_lem)
  then have "?T < ?T + 1" by (simp add: word_less_nat_alt)
  then have "errorCount ?s + 1 > ErrorThreshold ?s" by (simp add: c)
  then have "handleError ?s = ?s\<lparr>errorCount := errorCount ?s + 1, state := ERROR,
       needsFullRefresh := True, queueHead := 0, queueTail := 0, reads := Suc (reads ?s),
       lastActionTime := clock ?s (reads ?s)\<rparr>"
    by (rule handleError_above)
  then have "state (handleError ?s) = ERROR \<and> queueHead (handleError ?s) = 0 \<and>
      queueTail (handleError ?s) = 0 \<and> getQueueCount (handleError ?s) = 0"
    by (simp add: getQueueCount_def)
  then show ?thesis
    using handleError_iter_below [OF assms(2,4)] assms(3) c by simp
qed

theorem threshold_escalation_witness:
  "state ((handleError ^^ 1) (power_on (\<lambda>n. 0) (\<lambda>n. 0))) = READY \<and>
   queue_of ((handleError ^^ 1) (power_on (\<lambda>n. 0) (\<lambda>n. 0))) =
     queue_of (power_on (\<lambda>n. 0) (\<lambda>n. 0)) \<and>
   state ((handleError ^^ 2) (power_on (\<lambda>n. 0) (\<lambda>n. 0))) = ERROR \<and>
   getQueueCount ((handleError ^^ 2) (power_on (\<lambda>n. 0) (\<lambda>n. 0))) = 0"
proof -
  have "(1 :: uint8_t) < 255" by (simp add: word_less_def)
  then show ?thesis
    using threshold_escalation [of "power_on (\<lambda>n. 0) (\<lambda>n. 0)" 1]
    by (simp add: power_on_simps numeral_2_eq_2)
qed

text \<open>With the threshold at 255 the 8-bit counter wraps to 0 at the 256th failure and
  never exceeds the threshold: the state is still \<open>READY\<close>.\<close>

theorem threshold_escalation_counterexample:
  "ErrorThreshold never_escalates = 255 \<and> errorCount never_escalates = 0 \<and>
   state never_escalates = READY \<and>
   state ((handleError ^^ 256) never_escalates) = READY \<and>
   errorCount ((handleError ^^ 256) never_escalates) = 0"
  by (simp add: never_escalates_simps handleError_iter_max handleError_iter_fields)

section \<open>The circular queue\<close>

lemma unat_next: "unat (of_nat ((n + 1) mod QUEUE_SIZE) :: uint8_t) = (n + 1) mod QUEUE_SIZE"
proof -
  have "(n + 1) mod QUEUE_SIZE < 32" by (simp add: QUEUE_SIZE_def)
  then have "(n + 1) mod QUEUE_SIZE < 2 ^ LENGTH(8)" by simp
  then show ?thesis by (simp add: unat_of_nat)
qed

lemma unat_lt32: "(w :: uint8_t) < 32 \<longleftrightarrow> unat w < 32"
  by (simp add: word_less_nat_alt)

lemma unat_count:
  assumes "queueHead s < 32" "queueTail s < 32"
  shows "unat (getQueueCount s) = qcount (unat (queueHead s)) (unat (queueTail s))"
proof (cases "queueHead s \<le> queueTail s")
  case True
  then have "unat (queueTail s - queueHead s) = unat (queueTail s) - unat (queueHead s)"
    by (rule unat_sub)
  moreover have "unat (queueHead s) \<le> unat (queueTail s)"
    using True by (simp add: word_le_nat_alt)
  ultimately show ?thesis using True by (simp add: getQueueCount_def qcount_def)
next
  case False
  then have lt: "unat (queueTail s) < unat (queueHead s)"
    by (simp add: word_le_nat_alt)
  have h: "unat (queueHead s) < 32" using assms by (simp add: unat_lt32)
  have d: "unat (queueHead s - queueTail s) = unat (queueHead s) - unat (queueTail s)"
    using lt by (intro unat_sub) (simp add: word_le_nat_alt)
  have "queueHead s - queueTail s \<le> 32"
    using d h by (simp add: word_le_nat_alt)
  then have "unat (32 - (queueHead s - queueTail s)) = 32 - unat (queueHead s - queueTail s)"
    by (simp add: unat_sub)
  then show ?thesis using False lt h d by (simp add: getQueueCount_def QUEUE_SIZE_def qcount_def)
qed

lemma queue_list_ring:
  "queue_list s = ring (cmdQueue s) (unat (queueHead s)) (unat (getQueueCount s))"
  by (simp add: queue_list_def ring_def QUEUE_SIZE_def)

lemma mod32_inj:
  assumes "i < n" "n < (32::nat)"
  shows "(h + n) mod 32 \<noteq> (h + i) mod 32"
proof
  assume "(h + n) mod 32 = (h + i) mod 32"
  moreover have "h + i \<le> h + n" using assms(1) by simp
  ultimately have "32 dvd (h + n) - (h + i)"
    by (simp only: mod_eq_dvd_iff_nat)
  then have "32 dvd n - i" by simp
  then have "32 \<le> n - i" using assms(1) by (intro dvd_imp_le) simp_all
  then show False using assms by simp
qed

lemma ring_snoc:
  assumes "length q = 32" "n < 32"
  shows "ring (q[(h + n) mod 32 := c]) h (Suc n) = ring q h n @ [c]"
  using assms mod32_inj [of _ n h] by (simp add: ring_def)

lemma ring_tl: "ring q (Suc h mod 32) (n - 1) = tl (ring q h n)"
proof (cases n)
  case 0
  then show ?thesis by (simp add: ring_def)
next
  case (Suc k)
  have e: "(Suc h mod 32 + i) mod 32 = Suc (h + i) mod 32" for i
    by (metis add_Suc mod_add_left_eq)
  have "tl (ring q h n) = map (\<lambda>i. q ! ((h + i) mod 32)) (map Suc [0..<k])"
    unfolding ring_def Suc map_Suc_upt by (simp add: map_tl upt_conv_Cons del: upt_Suc)
  then show ?thesis using Suc by (simp add: ring_def e comp_def)
qed

lemma ring_hd: "0 < n \<Longrightarrow> h < 32 \<Longrightarrow> hd (ring q h n) = q ! h"
  by (simp add: ring_def hd_map upt_conv_Cons)

lemma ring_length [simp]: "length (ring q h n) = n"
  by (simp add: ring_def)

lemma succ32: "t < 32 \<Longrightarrow> Suc t mod 32 = (if t = 31 then 0 else Suc t)"
  by simp

lemma qcount_full: "h < 32 \<Longrightarrow> t < 32 \<Longrightarrow> Suc t mod 32 = h \<longleftrightarrow> qcount h t = 31"
  by (auto simp: qcount_def succ32 split: if_splits)

lemma qcount_enq:
  "h < 32 \<Longrightarrow> t < 32 \<Longrightarrow> Suc t mod 32 \<noteq> h \<Longrightarrow>
   qcount h (Suc t mod 32) = Suc (qcount h t)"
  by (auto simp: qcount_def succ32 split: if_splits)

lemma qcount_tail: "h < 32 \<Longrightarrow> t < 32 \<Longrightarrow> (h + qcount h t) mod 32 = t"
  by (auto simp: qcount_def)

lemma qcount_deq:
  "h < 32 \<Longrightarrow> t < 32 \<Longrightarrow> h \<noteq> t \<Longrightarrow> qcount (Suc h mod 32) t = qcount h t - 1"
  by (auto simp: qcount_def succ32 split: if_splits)

lemma qcount_empty: "h < 32 \<Longrightarrow> t < 32 \<Longrightarrow> qcount h t = 0 \<longleftrightarrow> h = t"
  by (auto simp: qcount_def)

lemma qcount_lt: "h < 32 \<Longrightarrow> t < 32 \<Longrightarrow> qcount h t < 32"
  by (auto simp: qcount_def)

lemma queue_of_cong:
  "queue_of s' = queue_of s \<Longrightarrow> queue_list s' = queue_list s \<and> queue_ok s' = queue_ok s"
  by (simp add: queue_of_def queue_list_def queue_ok_def getQueueCount_def)

lemma queue_ok_unat:
  "queue_ok s \<Longrightarrow>
   length (cmdQueue s) = 32 \<and> unat (queueHead s) < 32 \<and> unat (queueTail s) < 32"
  by (simp add: queue_ok_def QUEUE_SIZE_def unat_lt32)

lemma queue_list_length:
  "queue_ok s \<Longrightarrow> length (queue_list s) = qcount (unat (queueHead s)) (unat (queueTail s))"
  by (simp add: queue_list_ring unat_count queue_ok_def)

lemma queue_list_Nil: "queue_ok s \<Longrightarrow> queue_list s = [] \<longleftrightarrow> queueHead s = queueTail s"
proof -
  assume ok: "queue_ok s"
  have "queue_list s = [] \<longleftrightarrow> length (queue_list s) = 0" by simp
  also have "\<dots> \<longleftrightarrow> unat (queueHead s) = unat (queueTail s)"
    using queue_ok_unat [OF ok] by (simp add: queue_list_length [OF ok] qcount_empty)
  finally show ?thesis by (simp add: word_unat_eq_iff)
qed

lemma next_tail_full:
  assumes "queue_ok s"
  shows "(of_nat ((unat (queueTail s) + 1) mod QUEUE_SIZE) = queueHead s) \<longleftrightarrow>
         length (queue_list s) = 31"
proof -
  have "(of_nat ((unat (queueTail s) + 1) mod QUEUE_SIZE) = queueHead s) \<longleftrightarrow>
        (unat (queueTail s) + 1) mod QUEUE_SIZE = unat (queueHead s)"
    by (simp only: word_unat_eq_iff unat_next)
  also have "\<dots> \<longleftrightarrow> qcount (unat (queueHead s)) (unat (queueTail s)) = 31"
    using queue_ok_unat [OF assms] qcount_full [of "unat (queueHead s)" "unat (queueTail s)"]
    by (simp add: QUEUE_SIZE_def)
  finally show ?thesis by (simp add: queue_list_length [OF assms])
qed

lemma queueCommand_full:
  "queue_ok s \<Longrightarrow> length (queue_list s) = 31 \<Longrightarrow> queueCommand c s = (False, handleError s)"
  using next_tail_full [of s] by (simp add: queueCommand_def Let_def)

lemma queueCommand_free:
  "queue_ok s \<Longrightarrow> length (queue_list s) \<noteq> 31 \<Longrightarrow>
   queueCommand c s =
     (True, s\<lparr>cmdQueue := (cmdQueue s)[unat (queueTail s) := c],
              queueTail := of_nat ((unat (queueTail s) + 1) mod QUEUE_SIZE)\<rparr>)"
  using next_tail_full [of s] by (simp add: queueCommand_def Let_def)

lemma enqueue_queue_list:
  fixes c :: LCDCommand
  assumes ok: "queue_ok s" and free: "length (queue_list s) \<noteq> 31"
  defines "s' \<equiv> s\<lparr>cmdQueue := (cmdQueue s)[unat (queueTail s) := c],
              queueTail := of_nat ((unat (queueTail s) + 1) mod QUEUE_SIZE)\<rparr>"
  shows "queue_list s' = queue_list s @ [c]" and "queue_ok s'"
proof -
  let ?h = "unat (queueHead s)" and ?t = "unat (queueTail s)"
  note b = queue_ok_unat [OF ok]
  have nf: "(?t + 1) mod 32 \<noteq> ?h"
    using free b qcount_full [of ?h ?t] by (simp add: queue_list_length [OF ok])
  have t': "unat (queueTail s') = (?t + 1) mod 32"
    unfolding s'_def using unat_next [of ?t] by (simp add: QUEUE_SIZE_def)
  show ok': "queue_ok s'"
    using ok t' by (simp add: queue_ok_def unat_lt32) (simp add: s'_def)
  have n: "qcount ?h ?t < 32" using b by (simp add: qcount_lt)
  have "queue_list s' = ring (cmdQueue s') ?h (qcount ?h ((?t + 1) mod 32))"
    using ok' t' by (simp add: queue_list_ring unat_count queue_ok_def) (simp add: s'_def)
  also have "\<dots> = ring ((cmdQueue s)[(?h + qcount ?h ?t) mod 32 := c]) ?h (Suc (qcount ?h ?t))"
    using b nf by (simp add: qcount_enq qcount_tail s'_def)
  also have "\<dots> = ring (cmdQueue s) ?h (qcount ?h ?t) @ [c]"
    using b n by (intro ring_snoc) simp_all
  finally show "queue_list s' = queue_list s @ [c]"
    using ok by (simp add: queue_list_ring unat_count queue_ok_def)
qed

lemma dequeue_queue_list:
  assumes ok: "queue_ok s" and ne: "queueHead s \<noteq> queueTail s"
  defines "s' \<equiv> s\<lparr>queueHead := of_nat ((unat (queueHead s) + 1) mod QUEUE_SIZE)\<rparr>"
  shows "queue_list s' = tl (queue_list s)" and "queue_ok s'"
    and "cmdQueue s ! unat (queueHead s) = hd (queue_list s)"
proof -
  let ?h = "unat (queueHead s)" and ?t = "unat (queueTail s)"
  note b = queue_ok_unat [OF ok]
  have ne': "?h \<noteq> ?t" using ne by (simp add: word_unat_eq_iff)
  have h': "unat (queueHead s') = (?h + 1) mod 32"
    unfolding s'_def using unat_next [of ?h] by (simp add: QUEUE_SIZE_def)
  show ok': "queue_ok s'"
    using ok h' by (simp add: queue_ok_def unat_lt32) (simp add: s'_def)
  have "queue_list s' = ring (cmdQueue s) ((?h + 1) mod 32) (qcount ((?h + 1) mod 32) ?t)"
    using ok' h' by (simp add: queue_list_ring unat_count queue_ok_def) (simp add: s'_def)
  also have "\<dots> = ring (cmdQueue s) ((?h + 1) mod 32) (qcount ?h ?t - 1)"
    using b ne' by (simp add: qcount_deq)
  also have "\<dots> = tl (ring (cmdQueue s) ?h (qcount ?h ?t))"
    using ring_tl [of "cmdQueue s" ?h] by simp
  finally show "queue_list s' = tl (queue_list s)"
    using ok by (simp add: queue_list_ring unat_count queue_ok_def)
  have "0 < qcount ?h ?t" using b ne' qcount_empty [of ?h ?t] by simp
  then have "hd (ring (cmdQueue s) ?h (qcount ?h ?t)) = cmdQueue s ! ?h"
    using b by (simp add: ring_hd)
  then show "cmdQueue s ! unat (queueHead s) = hd (queue_list s)"
    using ok by (simp add: queue_list_ring unat_count queue_ok_def)
qed

lemma enqueue_all_free:
  "queue_ok s \<Longrightarrow> length (queue_list s) + length cs \<le> 31 \<Longrightarrow>
   fst (enqueue_all cs s) = replicate (length cs) True \<and>
   queue_list (snd (enqueue_all cs s)) = queue_list s @ cs \<and>
   queue_ok (snd (enqueue_all cs s)) \<and>
   errorCount (snd (enqueue_all cs s)) = errorCount s \<and>
   ErrorThreshold (snd (enqueue_all cs s)) = ErrorThreshold s \<and>
   state (snd (enqueue_all cs s)) = state s"
proof (induction cs arbitrary: s)
  case Nil
  then show ?case by simp
next
  case (Cons c cs)
  let ?s = "s\<lparr>cmdQueue := (cmdQueue s)[unat (queueTail s) := c],
              queueTail := of_nat ((unat (queueTail s) + 1) mod QUEUE_SIZE)\<rparr>"
  have free: "length (queue_list s) \<noteq> 31" using Cons.prems(2) by simp
  have q: "queueCommand c s = (True, ?s)"
    using Cons.prems(1) free by (rule queueCommand_free)
  have l: "queue_list ?s = queue_list s @ [c]" and ok: "queue_ok ?s"
    using Cons.prems(1) free by (rule enqueue_queue_list)+
  have "length (queue_list ?s) + length cs \<le> 31" using Cons.prems(2) l by simp
  from Cons.IH [OF ok this] l show ?case by (simp add: q split_beta)
qed

lemma power_on_queue_ok: "queue_ok (power_on clk ack)"
  by (simp add: queue_ok_def power_on_simps QUEUE_SIZE_def word_less_def)

text \<open>
  Claim C7. Starting from an empty queue (\<open>_queueHead = _queueTail\<close>, anywhere in the
  array), \<open>QUEUE_SIZE - 1 = 31\<close> consecutive \<open>queueCommand\<close> calls all return true and
  the queue then holds exactly those commands in order, with the error counter unchanged;
  the 32nd call returns false, writes no slot, and increments the error counter by one,
  as \<open>uint8_t\<close> arithmetic does (modulo 256). When the incremented counter exceeds the
  threshold, \<open>handleError\<close> also resets the queue.
\<close>

theorem queue_capacity:
  assumes "queue_ok s" and "queueHead s = queueTail s" and "length cs = QUEUE_SIZE - 1"
  shows "fst (enqueue_all cs s) = replicate (QUEUE_SIZE - 1) True \<and>
    queue_list (snd (enqueue_all cs s)) = cs \<and>
    errorCount (snd (enqueue_all cs s)) = errorCount s \<and>
    fst (queueCommand c (snd (enqueue_all cs s))) = False \<and>
    cmdQueue (snd (queueCommand c (snd (enqueue_all cs s)))) =
      cmdQueue (snd (enqueue_all cs s)) \<and>
    errorCount (snd (queueCommand c (snd (enqueue_all cs s)))) = errorCount s + 1 \<and>
    unat (errorCount (snd (queueCommand c (snd (enqueue_all cs s))))) =
      (unat (errorCount s) + 1) mod 256 \<and>
    queue_list (snd (queueCommand c (snd (enqueue_all cs s)))) =
      (if errorCount s + 1 > ErrorThreshold s then [] else cs)"
proof -
  let ?s = "snd (enqueue_all cs s)"
  have e: "queue_list s = []" using assms(1,2) by (simp add: queue_list_Nil)
  then have "length (queue_list s) + length cs \<le> 31"
    using assms(3) by (simp add: QUEUE_SIZE_def)
  from enqueue_all_free [OF assms(1) this]
  have a: "fst (enqueue_all cs s) = replicate (length cs) True" "queue_list ?s = cs"
    "queue_ok ?s" "errorCount ?s = errorCount s" "ErrorThreshold ?s = ErrorThreshold s"
    by (simp_all add: e)
  have "length (queue_list ?s) = 31" using a(2) assms(3) by (simp add: QUEUE_SIZE_def)
  with a(3) have q: "queueCommand c ?s = (False, handleError ?s)"
    by (rule queueCommand_full)
  have l: "queue_list (handleError ?s) =
      (if errorCount s + 1 > ErrorThreshold s then [] else cs)"
  proof (cases "errorCount ?s + 1 > ErrorThreshold ?s")
    case True
    then show ?thesis
      using a(4,5) by (simp add: handleError_above queue_list_def getQueueCount_def)
  next
    case False
    have "queue_of (handleError ?s) = queue_of ?s"
      by (simp add: handleError_below [OF False] queue_of_def)
    from queue_of_cong [OF this] show ?thesis using False a by simp
  qed
  have "unat (errorCount s + 1) = (unat (errorCount s) + 1) mod 256"
    by (simp add: unat_word_ariths)
  then show ?thesis using a assms(3) by (simp add: q l handleError_fields)
qed

theorem queue_capacity_witness:
  "fst (enqueue_all (replicate 31 (blank_cmd\<lparr>type := WRITE_CHAR, data0 := 0x41\<rparr>))
         (power_on (\<lambda>n. 0) (\<lambda>n. 0))) = replicate 31 True \<and>
   fst (queueCommand (blank_cmd\<lparr>type := WRITE_CHAR, data0 := 0x42\<rparr>)
         (snd (enqueue_all (replicate 31 (blank_cmd\<lparr>type := WRITE_CHAR, data0 := 0x41\<rparr>))
                (power_on (\<lambda>n. 0) (\<lambda>n. 0))))) = False \<and>
   errorCount (snd (queueCommand (blank_cmd\<lparr>type := WRITE_CHAR, data0 := 0x42\<rparr>)
         (snd (enqueue_all (replicate 31 (blank_cmd\<lparr>type := WRITE_CHAR, data0 := 0x41\<rparr>))
                (power_on (\<lambda>n. 0) (\<lambda>n. 0)))))) = 1 \<and>
   queue_list (snd (queueCommand (blank_cmd\<lparr>type := WRITE_CHAR, data0 := 0x42\<rparr>)
         (snd (enqueue_all (replicate 31 (blank_cmd\<lparr>type := WRITE_CHAR, data0 := 0x41\<rparr>))
                (power_on (\<lambda>n. 0) (\<lambda>n. 0)))))) =
     replicate 31 (blank_cmd\<lparr>type := WRITE_CHAR, data0 := 0x41\<rparr>)"
  using queue_capacity [of "power_on (\<lambda>n. 0) (\<lambda>n. 0)"
      "replicate 31 (blank_cmd\<lparr>type := WRITE_CHAR, data0 := 0x41\<rparr>)"
      "blank_cmd\<lparr>type := WRITE_CHAR, data0 := 0x42\<rparr>"]
  by (simp add: power_on_queue_ok power_on_simps QUEUE_SIZE_def)


section \<open>The clear-then-backlight scenario\<close>

lemma ticks_waiting:
  "state s = PROCESSING \<Longrightarrow>
   \<forall>i<k. clock s (reads s + i) - lastActionTime s < cmdTime s \<Longrightarrow>
   ticks k s = (replicate k False, s\<lparr>reads := reads s + k\<rparr>)"
proof (induction k arbitrary: s)
  case 0
  then show ?case by simp
next
  case (Suc k)
  let ?s = "s\<lparr>reads := Suc (reads s)\<rparr>"
  have "clock s (reads s + 0) - lastActionTime s < cmdTime s"
    using Suc.prems(2) by blast
  then have u: "update s = (False, ?s)"
    using Suc.prems(1) by (simp add: update_PROCESSING not_le [symmetric])
  have "\<forall>i<k. clock ?s (reads ?s + i) - lastActionTime ?s < cmdTime ?s"
    using Suc.prems(2) by (auto dest: spec [of _ "Suc _"])
  with Suc.IH [of ?s] Suc.prems(1) show ?case by (simp add: u)
qed

lemma sent_queue:
  assumes ok: "queue_ok s" and ne: "queueHead s \<noteq> queueTail s"
    and s': "queue_of s' = (cmdQueue s, of_nat ((unat (queueHead s) + 1) mod QUEUE_SIZE), queueTail s)"
  shows "queue_list s' = tl (queue_list s)" and "queue_ok s'"
proof -
  let ?d = "s\<lparr>queueHead := of_nat ((unat (queueHead s) + 1) mod QUEUE_SIZE)\<rparr>"
  have "queue_of s' = queue_of ?d" using s' by (simp add: queue_of_def)
  from queue_of_cong [OF this] dequeue_queue_list(1,2) [OF ok ne]
  show "queue_list s' = tl (queue_list s)" and "queue_ok s'" by simp_all
qed

lemma clear_setBacklight_queue:
  fixes r g b :: uint8_t
  assumes ok: "queue_ok s" and e: "queueHead s = queueTail s"
  shows "queue_list (setBacklight r g b (clear s)) =
      [(local_cmd s)\<lparr>type := SPECIAL_CMD, data0 := CLEAR_COMMAND, dataLen := 1\<rparr>,
       (local_cmd s)\<lparr>type := RGB_CMD, data0 := r, data1 := g, data2 := b, dataLen := 3\<rparr>]"
    and "queue_ok (setBacklight r g b (clear s))"
    and "setBacklight r g b (clear s) =
      s\<lparr>cmdQueue := cmdQueue (setBacklight r g b (clear s)),
        queueTail := queueTail (setBacklight r g b (clear s))\<rparr>"
proof -
  let ?c1 = "(local_cmd s)\<lparr>type := SPECIAL_CMD, data0 := CLEAR_COMMAND, dataLen := 1\<rparr>"
  let ?c2 = "(local_cmd s)\<lparr>type := RGB_CMD, data0 := r, data1 := g, data2 := b,
      dataLen := 3\<rparr>"
  have q: "queue_list s = []" using ok e by (simp add: queue_list_Nil)
  let ?a = "s\<lparr>cmdQueue := (cmdQueue s)[unat (queueTail s) := ?c1],
              queueTail := of_nat ((unat (queueTail s) + 1) mod QUEUE_SIZE)\<rparr>"
  have f1: "length (queue_list s) \<noteq> 31" using q by simp
  have a: "clear s = ?a"
    using queueCommand_free [OF ok f1, of ?c1] by (simp add: clear_def)
  have la: "queue_list ?a = [?c1]" and oka: "queue_ok ?a"
    using enqueue_queue_list [OF ok f1, of ?c1] q by simp_all
  let ?b = "?a\<lparr>cmdQueue := (cmdQueue ?a)[unat (queueTail ?a) := ?c2],
              queueTail := of_nat ((unat (queueTail ?a) + 1) mod QUEUE_SIZE)\<rparr>"
  have f2: "length (queue_list ?a) \<noteq> 31" using la by simp
  have b: "setBacklight r g b (clear s) = ?b"
    unfolding a using queueCommand_free [OF oka f2, of ?c2]
    by (simp add: setBacklight_def)
  show "queue_list (setBacklight r g b (clear s)) = [?c1, ?c2]"
    and "queue_ok (setBacklight r g b (clear s))"
    unfolding b using enqueue_queue_list [OF oka f2, of ?c2] la by simp_all
  show "setBacklight r g b (clear s) =
      s\<lparr>cmdQueue := cmdQueue (setBacklight r g b (clear s)),
        queueTail := queueTail (setBacklight r g b (clear s))\<rparr>"
    unfolding b by simp
qed

lemma scenario_trace:
  assumes ok: "queue_ok s" and rdy: "state s = READY" and emp: "queueHead s = queueTail s"
    and bus: "\<forall>n. wire_ack s n = 0"
    and wait: "\<forall>i<k. clock s (reads s + 2 + i) - clock s (reads s + 1) < cmdTime s"
    and elapsed: "cmdTime s \<le> clock s (reads s + 2 + k) - clock s (reads s + 1)"
  shows "\<exists>s1 s2 s3 s4.
    update (setBacklight 10 20 30 (clear s)) = (True, s1) \<and>
    ticks k s1 = (replicate k False, s2) \<and>
    update s2 = (True, s3) \<and>
    update s3 = (True, s4) \<and>
    state s1 = PROCESSING \<and>
    wire_log s1 = wire_log s @ [([SPECIAL_COMMAND, CLEAR_COMMAND], 0)] \<and>
    state s2 = PROCESSING \<and> wire_log s2 = wire_log s1 \<and>
    reads s2 = reads s + 2 + k \<and> lastActionTime s2 = clock s (reads s + 1) \<and>
    clock s2 = clock s \<and> cmdTime s2 = cmdTime s \<and>
    state s3 = READY \<and> wire_log s3 = wire_log s1 \<and>
    queue_ok s3 \<and> length (queue_list s3) = 1 \<and>
    state s4 = PROCESSING \<and>
    wire_log s4 = wire_log s1 @ [([SETTING_COMMAND, RGB_COMMAND, 10, 20, 30], 0)] \<and>
    queue_list s4 = [] \<and> queueHead s4 = queueTail s4"
proof -
  let ?c1 = "(local_cmd s)\<lparr>type := SPECIAL_CMD, data0 := CLEAR_COMMAND, dataLen := 1\<rparr>"
  let ?c2 = "(local_cmd s)\<lparr>type := RGB_CMD, data0 := 10, data1 := 20, data2 := 30,
      dataLen := 3\<rparr>"
  define s0 where "s0 = setBacklight 10 20 30 (clear s)"
  have l0: "queue_list s0 = [?c1, ?c2]" and ok0: "queue_ok s0"
    and eq0: "s0 = s\<lparr>cmdQueue := cmdQueue s0, queueTail := queueTail s0\<rparr>"
    unfolding s0_def using clear_setBacklight_queue [OF ok emp, of 10 20 30] by simp_all
  have f0: "state s0 = READY" "reads s0 = reads s" "wire_ack s0 = wire_ack s"
    "wire_log s0 = wire_log s" "clock s0 = clock s" "cmdTime s0 = cmdTime s"
    using rdy by (subst eq0, simp)+
  have ne0: "queueHead s0 \<noteq> queueTail s0"
    using queue_list_Nil [OF ok0] l0 by simp
  have hd0: "cmdQueue s0 ! unat (queueHead s0) = ?c1"
    using dequeue_queue_list(3) [OF ok0 ne0] l0 by simp
  define s1 where "s1 = s0\<lparr>reads := Suc (Suc (reads s0)), wire_addr := i2cAddr s0,
        wire_buf := [],
        wire_log := wire_log s0 @ [(cmd_bytes (cmdQueue s0 ! unat (queueHead s0)), 0)],
        queueHead := of_nat ((unat (queueHead s0) + 1) mod QUEUE_SIZE),
        state := PROCESSING, lastActionTime := clock s0 (Suc (reads s0))\<rparr>"
  have u0: "update s0 = (True, s1)"
    unfolding s1_def using f0(1) ne0 bus by (intro update_READY_sent) (simp_all add: hd0 f0)
  have f1: "state s1 = PROCESSING" "reads s1 = Suc (Suc (reads s))"
    "lastActionTime s1 = clock s (Suc (reads s))" "clock s1 = clock s"
    "cmdTime s1 = cmdTime s" "wire_ack s1 = wire_ack s"
    "wire_log s1 = wire_log s @ [([SPECIAL_COMMAND, CLEAR_COMMAND], 0)]"
    by (simp_all add: s1_def f0 hd0 cmd_bytes_def)
  have l1: "queue_list s1 = [?c2]" and ok1: "queue_ok s1"
    using sent_queue [OF ok0 ne0, of s1] l0 by (simp_all add: s1_def queue_of_def)
  define s2 where "s2 = s1\<lparr>reads := reads s1 + k\<rparr>"
  have t1: "ticks k s1 = (replicate k False, s2)"
    unfolding s2_def using wait by (intro ticks_waiting) (simp_all add: f1)
  define s3 where "s3 = s2\<lparr>reads := Suc (reads s2), state := READY\<rparr>"
  have u2: "update s2 = (True, s3)"
    using elapsed by (simp add: update_PROCESSING s3_def s2_def f1)
  have "queue_of s3 = queue_of s1" by (simp add: s3_def s2_def queue_of_def)
  from queue_of_cong [OF this] have l3: "queue_list s3 = [?c2]" and ok3: "queue_ok s3"
    using l1 ok1 by simp_all
  have f3: "state s3 = READY" "wire_log s3 = wire_log s1" "wire_ack s3 = wire_ack s"
    by (simp_all add: s3_def s2_def f1)
  have ne3: "queueHead s3 \<noteq> queueTail s3"
    using queue_list_Nil [OF ok3] l3 by simp
  have hd3: "cmdQueue s3 ! unat (queueHead s3) = ?c2"
    using dequeue_queue_list(3) [OF ok3 ne3] l3 by simp
  define s4 where "s4 = s3\<lparr>reads := Suc (Suc (reads s3)), wire_addr := i2cAddr s3,
        wire_buf := [],
        wire_log := wire_log s3 @ [(cmd_bytes (cmdQueue s3 ! unat (queueHead s3)), 0)],
        queueHead := of_nat ((unat (queueHead s3) + 1) mod QUEUE_SIZE),
        state := PROCESSING, lastActionTime := clock s3 (Suc (reads s3))\<rparr>"
  have u3: "update s3 = (True, s4)"
    unfolding s4_def using f3(1) ne3 bus by (intro update_READY_sent) (simp_all add: hd3 f3)
  have l4: "queue_list s4 = []" and ok4: "queue_ok s4"
    using sent_queue [OF ok3 ne3, of s4] l3 by (simp_all add: s4_def queue_of_def)
  have e4: "queueHead s4 = queueTail s4"
    using queue_list_Nil [OF ok4] l4 by simp
  have f4: "state s4 = PROCESSING"
    "wire_log s4 = wire_log s1 @ [([SETTING_COMMAND, RGB_COMMAND, 10, 20, 30], 0)]"
    by (simp_all add: s4_def f3 hd3 cmd_bytes_def)
  have f2: "state s2 = PROCESSING" "wire_log s2 = wire_log s1"
    by (simp_all add: s2_def f1)
  have f2: "state s2 = PROCESSING" "wire_log s2 = wire_log s1"
    "reads s2 = reads s + 2 + k" "lastActionTime s2 = clock s (reads s + 1)"
    "clock s2 = clock s" "cmdTime s2 = cmdTime s"
    by (simp_all add: s2_def f1)
  have "update (setBacklight 10 20 30 (clear s)) = (True, s1)"
    using u0 by (simp add: s0_def)
  then show ?thesis
    using t1 u2 u3 f1(1,7) f2 f3(1,2) ok3 l3 f4 l4 e4
    by (rule_tac x = s1 in exI, rule_tac x = s2 in exI, rule_tac x = s3 in exI,
        rule_tac x = s4 in exI) simp
qed

lemma scenario_start_simps:
  "queue_ok scenario_start" "state scenario_start = READY"
  "queueHead scenario_start = queueTail scenario_start" "errorCount scenario_start = 0"
  "wire_ack scenario_start = (\<lambda>n. 0)" "clock scenario_start = (\<lambda>n. 3 * of_nat n)"
  "reads scenario_start = 0" "cmdTime scenario_start = 5" "wire_log scenario_start = []"
  by (simp_all add: scenario_start_def power_on_queue_ok power_on_simps)

text \<open>
  Claim C4 (as amended). From \<open>READY\<close> with an empty queue and error counter 0, after
  \<open>clear()\<close> and \<open>setBacklight(10, 20, 30)\<close>, on a bus that always succeeds: the first
  tick sends the clear bytes (254, 1) and enters \<open>PROCESSING\<close>; each of the \<open>k\<close> ticks
  made before the command time has elapsed returns false and sends nothing; the first tick
  at which the command time has elapsed only returns to \<open>READY\<close> (it returns true, sends
  nothing, and the backlight command is still queued); the tick after it sends the
  backlight bytes (0x7C, 0x2B, 10, 20, 30) and leaves the queue empty.
\<close>

theorem clear_backlight_scenario:
  assumes "queue_ok s" and "state s = READY" and "queueHead s = queueTail s"
    and "errorCount s = 0" and "\<forall>n. wire_ack s n = 0"
    and "\<forall>i<k. clock s (reads s + 2 + i) - clock s (reads s + 1) < cmdTime s"
    and "cmdTime s \<le> clock s (reads s + 2 + k) - clock s (reads s + 1)"
  shows "let s0 = setBacklight 10 20 30 (clear s);
             s1 = snd (update s0);
             s2 = snd (ticks k s1);
             s3 = snd (update s2);
             s4 = snd (update s3)
         in fst (update s0) \<and> state s1 = PROCESSING \<and>
            wire_log s1 = wire_log s @ [([SPECIAL_COMMAND, CLEAR_COMMAND], 0)] \<and>
            fst (ticks k s1) = replicate k False \<and> state s2 = PROCESSING \<and>
            wire_log s2 = wire_log s1 \<and>
            fst (update s2) \<and> state s3 = READY \<and> wire_log s3 = wire_log s1 \<and>
            length (queue_list s3) = 1 \<and>
            fst (update s3) \<and> state s4 = PROCESSING \<and>
            wire_log s4 = wire_log s1 @ [([SETTING_COMMAND, RGB_COMMAND, 10, 20, 30], 0)] \<and>
            queue_list s4 = [] \<and> queueHead s4 = queueTail s4"
proof -
  from scenario_trace [OF assms(1-3,5-7)] obtain s1 s2 s3 s4 where
    "update (setBacklight 10 20 30 (clear s)) = (True, s1)"
    "ticks k s1 = (replicate k False, s2)" "update s2 = (True, s3)" "update s3 = (True, s4)"
    "state s1 = PROCESSING" "wire_log s1 = wire_log s @ [([SPECIAL_COMMAND, CLEAR_COMMAND], 0)]"
    "state s2 = PROCESSING" "wire_log s2 = wire_log s1"
    "state s3 = READY" "wire_log s3 = wire_log s1" "length (queue_list s3) = 1"
    "state s4 = PROCESSING"
    "wire_log s4 = wire_log s1 @ [([SETTING_COMMAND, RGB_COMMAND, 10, 20, 30], 0)]"
    "queue_list s4 = []" "queueHead s4 = queueTail s4"
    by blast
  then show ?thesis by (simp add: Let_def)
qed

theorem clear_backlight_scenario_witness:
  "fst (update scenario_queued) \<and>
   wire_log (snd (update scenario_queued)) = [([254, 1], 0)] \<and>
   fst (ticks 1 (snd (update scenario_queued))) = [False] \<and>
   fst (update (snd (ticks 1 (snd (update scenario_queued))))) \<and>
   wire_log (snd (update (snd (ticks 1 (snd (update scenario_queued)))))) = [([254, 1], 0)] \<and>
   wire_log (snd (update (snd (update (snd (ticks 1 (snd (update scenario_queued)))))))) =
     [([254, 1], 0), ([0x7C, 0x2B, 10, 20, 30], 0)] \<and>
   queue_list (snd (update (snd (update (snd (ticks 1 (snd (update scenario_queued)))))))) = []"
proof -
  have "(3 :: ulong) < 5" "(5 :: ulong) \<le> 6" by (simp_all add: word_less_def word_le_def)
  then show ?thesis
    using clear_backlight_scenario [of scenario_start 1]
    by (simp add: scenario_start_simps scenario_queued_def Let_def lcd_consts)
qed

text \<open>Three ticks (send, too early, settle time elapsed): the third returns true, yet
  only the clear bytes have been sent and the backlight command is still queued.\<close>

theorem clear_backlight_scenario_counterexample:
  "fst (ticks 3 scenario_queued) = [True, False, True] \<and>
   cmdTime scenario_queued \<le>
     clock scenario_queued (reads (snd (ticks 2 scenario_queued))) -
       lastActionTime (snd (ticks 2 scenario_queued)) \<and>
   wire_log (snd (ticks 3 scenario_queued)) = [([254, 1], 0)] \<and>
   length (queue_list (snd (ticks 3 scenario_queued))) = 1 \<and>
   state (snd (ticks 3 scenario_queued)) = READY"
proof -
  have w: "(3 :: ulong) < 5" "(5 :: ulong) \<le> 6" by (simp_all add: word_less_def word_le_def)
  have "\<forall>n. wire_ack scenario_start n = 0"
    "\<forall>i<1. clock scenario_start (reads scenario_start + 2 + i) -
        clock scenario_start (reads scenario_start + 1) < cmdTime scenario_start"
    "cmdTime scenario_start \<le> clock scenario_start (reads scenario_start + 2 + 1) -
        clock scenario_start (reads scenario_start + 1)"
    using w by (simp_all add: scenario_start_simps)
  from scenario_trace [OF scenario_start_simps(1-3) this] obtain s1 s2 s3 where
    t: "update scenario_queued = (True, s1)" "ticks 1 s1 = ([False], s2)"
      "update s2 = (True, s3)"
    and f: "wire_log s3 = [([254, 1], 0)]"  "length (queue_list s3) = 1" "state s3 = READY"
      "reads s2 = 3" "lastActionTime s2 = 3" "clock scenario_queued = (\<lambda>n. 3 * of_nat n)"
      "cmdTime scenario_queued = 5"
    unfolding scenario_queued_def [symmetric]
    by (auto simp: scenario_start_simps lcd_consts scenario_queued_def clear_def
        setBacklight_def queueCommand_def handleError_def millis_def resetQueue_def Let_def)
  have u1: "update s1 = (False, s2)"
    using t(2) by (cases "update s1") simp
  have "ticks 2 scenario_queued = ([True, False], s2)"
    by (simp add: numeral_2_eq_2 t u1)
  moreover have "ticks 3 scenario_queued = ([True, False, True], s3)"
    by (simp add: numeral_3_eq_3 t u1)
  ultimately show ?thesis using f w by simp
qed


section \<open>The queue indices stay in range\<close>

text \<open>The constructor establishes \<open>queue_ok\<close> on a 32-slot array and every operation
  keeps it, so the array accesses of \<open>queueCommand\<close> and \<open>processNextCommand\<close> are
  always within bounds.\<close>

lemma handleError_queue_ok: "queue_ok s \<Longrightarrow> queue_ok (handleError s)"
  by (cases "errorCount s + 1 > ErrorThreshold s")
    (simp_all add: handleError_above handleError_below queue_ok_def word_less_def)

lemma queueCommand_queue_ok: "queue_ok s \<Longrightarrow> queue_ok (snd (queueCommand c s))"
proof (cases "length (queue_list s) = 31")
  case True
  assume "queue_ok s"
  then show ?thesis by (simp add: queueCommand_full True handleError_queue_ok)
next
  case False
  assume ok: "queue_ok s"
  from enqueue_queue_list(2) [OF ok False, of c] show ?thesis
    by (simp add: queueCommand_free [OF ok False])
qed

lemma reinitialize_queue_ok: "queue_ok s \<Longrightarrow> queue_ok (reinitialize s)"
  by (simp add: reinitialize_eq queue_ok_def word_less_def)

lemma update_queue_ok:
  assumes ok: "queue_ok s"
  shows "queue_ok (snd (update s))"
proof (cases "state s")
  case READY
  show ?thesis
  proof (cases "queueHead s = queueTail s")
    case True
    with READY ok show ?thesis by (simp add: update_READY_empty queue_ok_def)
  next
    case False
    let ?c = "cmdQueue s ! unat (queueHead s)"
    have h: "queue_ok (handleError s')" if "queue_of s' = queue_of s" for s'
      using queue_of_cong [OF that] ok by (simp add: handleError_queue_ok)
    show ?thesis
    proof (cases "type ?c = NONE")
      case True
      show ?thesis
        by (simp add: update_READY_invalid [OF READY False True] h queue_of_def)
    next
      case valid: False
      show ?thesis
      proof (cases "wire_ack s (length (wire_log s)) = 0")
        case True
        show ?thesis
          using sent_queue(2) [OF ok False, of "snd (update s)"]
          by (simp add: update_READY_sent [OF READY False valid True] queue_of_def)
      next
        case failed: False
        show ?thesis
          by (simp add: update_READY_failed [OF READY False valid failed] h queue_of_def)
      qed
    qed
  qed
next
  case PROCESSING
  with ok show ?thesis by (simp add: update_PROCESSING queue_ok_def)
next
  case AWAITING_RESPONSE
  with ok show ?thesis by (simp add: update_AWAITING queue_ok_def)
next
  case ERROR
  have "queue_ok (reinitialize (s\<lparr>reads := Suc (reads s), state := READY, errorCount := 0\<rparr>))"
    using ok by (intro reinitialize_queue_ok) (simp add: queue_ok_def)
  with ERROR ok show ?thesis
    by (cases "errorResetTime s \<le> clock s (reads s) - lastActionTime s")
      (simp_all add: update_ERROR_wait update_ERROR_recover queue_ok_def)
qed

lemma ctor_queue_ok: "length (cmdQueue s) = QUEUE_SIZE \<Longrightarrow> queue_ok (SerLCD0_ctor a s)"
  by (simp add: SerLCD0_ctor_def queue_ok_def word_less_def)

section \<open>FIFO dispatch\<close>













section \<open>The error counter\<close>

lemma sendCommand_errorCount: "errorCount (snd (sendCommand cmd s)) = errorCount s"
  by (cases "type cmd = NONE") (simp_all add: sendCommand_NONE sendCommand_valid)

lemma queueCommand_errorCount:
  "errorCount (snd (queueCommand cmd s)) =
     (if fst (queueCommand cmd s) then errorCount s else errorCount s + 1)"
  by (simp add: queueCommand_def Let_def handleError_fields)

lemma processNextCommand_errorCount:
  "errorCount (snd (processNextCommand s)) =
     (if state s = READY \<and> queueHead s \<noteq> queueTail s \<and> \<not> fst (processNextCommand s)
      then errorCount s + 1 else errorCount s)"
proof -
  have "errorCount (snd (sendCommand c s)) = errorCount s" for c
    by (rule sendCommand_errorCount)
  then show ?thesis
    by (simp add: processNextCommand_def Let_def split_beta millis_def handleError_fields)
qed

lemma update_errorCount:
  "errorCount (snd (update s)) =
     (if state s = ERROR
      then (if errorResetTime s \<le> clock s (reads s) - lastActionTime s then 0 else errorCount s)
      else if state s = READY \<and> queueHead s \<noteq> queueTail s \<and> \<not> fst (update s)
           then errorCount s + 1 else errorCount s)"
proof (cases "state s")
  case READY
  have "update s = processNextCommand (s\<lparr>reads := Suc (reads s)\<rparr>)"
    if "queueHead s \<noteq> queueTail s"
    using that READY by (simp add: update_def millis_def)
  then show ?thesis
    using READY processNextCommand_errorCount [of "s\<lparr>reads := Suc (reads s)\<rparr>"]
    by (cases "queueHead s = queueTail s") (simp_all add: update_READY_empty)
next
  case PROCESSING
  then show ?thesis by (simp add: update_PROCESSING)
next
  case AWAITING_RESPONSE
  then show ?thesis by (simp add: update_AWAITING)
next
  case ERROR
  then show ?thesis
    by (cases "errorResetTime s \<le> clock s (reads s) - lastActionTime s")
      (simp_all add: update_ERROR_wait update_ERROR_recover reinitialize_eq)
qed

lemma run_errorCount:
  "steady es s \<Longrightarrow> errorCount (run es s) = errorCount s + of_nat (failures es s)"
proof (induction es arbitrary: s)
  case Nil
  then show ?case by simp
next
  case (Cons e es)
  then have IH: "errorCount (run es (step e s)) =
      errorCount (step e s) + of_nat (failures es (step e s))"
    and ne: "state s \<noteq> ERROR"
    by simp_all
  show ?case
  proof (cases e)
    case (Enqueue c)
    with IH show ?thesis by (simp add: queueCommand_errorCount)
  next
    case Tick
    with IH ne show ?thesis by (simp add: update_errorCount)
  qed
qed

lemma interleaved_run_eval:
  "steady interleaved_run interleaved_start"
  "failures interleaved_run interleaved_start = 2"
  "errorCount interleaved_start = 0"
  "state (run interleaved_run interleaved_start) = ERROR"
  "wire_log (run interleaved_run interleaved_start) =
     [([0x41], 4), ([0x41], 0), ([0x42], 0), ([0x43], 4)]"
  by code_simp+

text \<open>
  Claim C10. \<open>sendCommand\<close> never changes the error counter, and \<open>update\<close> leaves it
  alone on a successful send; \<open>handleError\<close> increments it (by 8-bit addition); the
  constructor and \<open>reinitialize\<close> set it to 0; \<open>queueCommand\<close> changes it only through
  \<open>handleError\<close> when the queue is full; \<open>update\<close> changes it only by that increment
  on a failed send and by the reset in the elapsed branch of \<open>ERROR\<close>. Consequently, over
  any run that is not in \<open>ERROR\<close> before any of its events, the counter grows by exactly
  the number of failures, however many successful sends lie between them.
\<close>

theorem error_counter_accumulates:
  "errorCount (snd (sendCommand cmd s)) = errorCount s \<and>
   errorCount (handleError s) = errorCount s + 1 \<and>
   errorCount (resetQueue s) = errorCount s \<and>
   errorCount (SerLCD0_ctor a s) = 0 \<and>
   errorCount (reinitialize s) = 0 \<and>
   errorCount (snd (queueCommand cmd s)) =
     (if fst (queueCommand cmd s) then errorCount s else errorCount s + 1) \<and>
   errorCount (snd (update s)) =
     (if state s = ERROR
      then (if errorResetTime s \<le> clock s (reads s) - lastActionTime s then 0 else errorCount s)
      else if state s = READY \<and> queueHead s \<noteq> queueTail s \<and> \<not> fst (update s)
           then errorCount s + 1 else errorCount s) \<and>
   (steady es s \<longrightarrow> errorCount (run es s) = errorCount s + of_nat (failures es s))"
  using sendCommand_errorCount [of cmd s] queueCommand_errorCount [of cmd s]
    update_errorCount [of s] run_errorCount [of es s]
  by (simp add: handleError_fields resetQueue_def SerLCD0_ctor_def reinitialize_eq)

theorem error_counter_accumulates_witness:
  "steady interleaved_run interleaved_start \<and>
   failures interleaved_run interleaved_start = 2 \<and>
   errorCount (run interleaved_run interleaved_start) = 2 \<and>
   state (run interleaved_run interleaved_start) = ERROR \<and>
   wire_log (run interleaved_run interleaved_start) =
     [([0x41], 4), ([0x41], 0), ([0x42], 0), ([0x43], 4)]"
  using error_counter_accumulates [of _ interleaved_start _ interleaved_run]
  by (simp add: interleaved_run_eval)

end
